theory Spec2Isabelle
  imports Main "HOL-Library.Word"
begin

section \<open>The in-memory table store of \<open>database.py\<close>\<close>

subsection \<open>Python values, type tags and dictionaries\<close>

text \<open>
  The values a row may hold (\<open>Union[str, int, float, bool]\<close>) and the type objects a
  field may be declared with. A Python \<open>float\<close> is kept as its 64-bit pattern: the
  program stores and returns floats, it never computes with them.
\<close>

datatype pyvalue = VStr string | VInt int | VFloat "64 word" | VBool bool

datatype pytype = TStr | TInt | TFloat | TBool

text \<open>
  \<open>isinstance(value, data_type)\<close>. In Python \<open>bool\<close> is a subclass of \<open>int\<close>, so a
  boolean is an instance of both \<open>bool\<close> and \<open>int\<close>; no other two of the four types
  are related.
\<close>

fun isinstance :: "pyvalue \<Rightarrow> pytype \<Rightarrow> bool" where
  "isinstance (VStr s) ty = (ty = TStr)"
| "isinstance (VInt i) ty = (ty = TInt)"
| "isinstance (VFloat w) ty = (ty = TFloat)"
| "isinstance (VBool b) ty = (ty = TBool \<or> ty = TInt)"

text \<open>
  A Python \<open>dict\<close> is an insertion-ordered list of key/value pairs with pairwise
  different keys. \<open>d[k] = v\<close> overwrites the value of a key already present, in place,
  and appends a new key at the end.
\<close>

type_synonym ('k, 'v) dict = "('k \<times> 'v) list"

fun dict_setitem :: "('k, 'v) dict \<Rightarrow> 'k \<Rightarrow> 'v \<Rightarrow> ('k, 'v) dict" where
  "dict_setitem [] k v = [(k, v)]"
| "dict_setitem ((k', v') # d) k v =
     (if k' = k then (k', v) # d else (k', v') # dict_setitem d k v)"

text \<open>\<open>k in d\<close> and \<open>d[k]\<close> (the latter only evaluated by the program when \<open>k in d\<close>).\<close>

definition dict_contains :: "('k, 'v) dict \<Rightarrow> 'k \<Rightarrow> bool" where
  "dict_contains d k = (k \<in> set (map fst d))"

definition dict_getitem :: "('k, 'v) dict \<Rightarrow> 'k \<Rightarrow> 'v option" where
  "dict_getitem d k = map_of d k"

text \<open>
  The named values a caller writes in a call, in the order written. Python rejects a
  call that repeats a keyword, so the names are pairwise different; any name may occur,
  \<open>self\<close> too.
\<close>

type_synonym keyword_args = "(string, pyvalue) dict"

definition keyword_args_ok :: "keyword_args \<Rightarrow> bool" where
  "keyword_args_ok kws = distinct (map fst kws)"

text \<open>
  The dict a method \<open>def m(self, **kwargs)\<close> receives as \<open>kwargs\<close>: the keywords of the
  call, none of which is \<open>self\<close>, the name of the parameter that holds the receiver.
\<close>

type_synonym kwargs = "(string, pyvalue) dict"

definition kwargs_ok :: "kwargs \<Rightarrow> bool" where
  "kwargs_ok kw = (distinct (map fst kw) \<and> ''self'' \<notin> set (map fst kw))"

subsection \<open>Errors\<close>

text \<open>
  The two exception classes the program raises, each with its message; the \<open>KeyError\<close>
  of a dict read at a key it does not hold, with the key; and the \<open>TypeError\<close> of a
  call that gives a parameter two values, with the name of the parameter (the wording of
  its message depends on the interpreter).
\<close>

datatype error =
  ValueError string | TableNotFoundError string | KeyError string | TypeError string

text \<open>
  Argument binding of a call \<open>m(**keywords)\<close> on an object, for a method
  \<open>def m(self, **kwargs)\<close>: the receiver is bound to \<open>self\<close>, so a keyword \<open>self\<close> gives
  that parameter a second value and the call raises \<open>TypeError\<close> before the body runs;
  otherwise all keywords become \<open>kwargs\<close>.
\<close>

definition bind_self :: "keyword_args \<Rightarrow> error + kwargs" where
  "bind_self kws =
     (if ''self'' \<in> set (map fst kws) then Inl (TypeError ''self'') else Inr kws)"

abbreviation quote :: string where
  "quote \<equiv> [CHR 0x27]"

definition msg_count :: string where
  "msg_count =
     ''Number of fields in row does not match the number of fields in table schema.''"

definition msg_unknown :: "string \<Rightarrow> string" where
  "msg_unknown field_name =
     ''Field '' @ quote @ field_name @ quote @ '' does not exist in table schema.''"

definition msg_type :: "string \<Rightarrow> string" where
  "msg_type field_name =
     ''Field '' @ quote @ field_name @ quote @ '' type does not match the expected type.''"

definition msg_no_table :: "string \<Rightarrow> string" where
  "msg_no_table table_name = ''Table '' @ quote @ table_name @ quote @ '' does not exist.''"

subsection \<open>Field, Row and Table\<close>

record field =
  name :: string
  data_type :: pytype

definition Field :: "string \<Rightarrow> pytype \<Rightarrow> field" where
  "Field n ty = \<lparr> name = n, data_type = ty \<rparr>"

text \<open>A row object; \<open>row_fields\<close> is its attribute \<open>fields\<close>.\<close>

record row =
  row_fields :: "(string, pyvalue) dict"

text \<open>
  \<open>Row(**keywords)\<close>, that is \<open>Row.__init__(self, **kwargs)\<close>: after binding, the body
  starts from the empty dict and stores every keyword argument.
\<close>

definition Row :: "keyword_args \<Rightarrow> error + row" where
  "Row kws =
     (case bind_self kws of
        Inl e \<Rightarrow> Inl e
      | Inr kw \<Rightarrow>
          Inr \<lparr> row_fields =
                  fold (\<lambda>(field_name, field_value) d. dict_setitem d field_name field_value)
                    kw [] \<rparr>)"

text \<open>\<open>Row.add_field\<close>.\<close>

definition row_add_field :: "row \<Rightarrow> string \<Rightarrow> pyvalue \<Rightarrow> row" where
  "row_add_field self field_name field_value =
     self\<lparr> row_fields := dict_setitem (row_fields self) field_name field_value \<rparr>"

text \<open>
  A table object: its name, \<open>_fields\<close>, \<open>_rows\<close> and \<open>_related_tables\<close> (tables are
  objects, so the last one maps names to object references; the program never writes it).
\<close>

type_synonym ref = nat

record table =
  table_name :: string
  table_fields :: "field list"
  table_rows :: "row list"
  related_tables :: "(string, ref) dict"

definition Table :: "string \<Rightarrow> table" where
  "Table n = \<lparr> table_name = n, table_fields = [], table_rows = [], related_tables = [] \<rparr>"

text \<open>
  A method call on a table yields what it returns or raises, and the table as the call
  leaves it.
\<close>

type_synonym 'a outcome = "(error + 'a) \<times> table"

definition add_field :: "table \<Rightarrow> string \<Rightarrow> pytype \<Rightarrow> unit outcome" where
  "add_field self field_name ty =
     (Inr (), self\<lparr> table_fields := table_fields self @ [Field field_name ty] \<rparr>)"

fun add_fields_loop :: "table \<Rightarrow> (string, pytype) dict \<Rightarrow> table" where
  "add_fields_loop self [] = self"
| "add_fields_loop self ((field_name, ty) # fields_dict) =
     add_fields_loop (snd (add_field self field_name ty)) fields_dict"

definition add_fields :: "table \<Rightarrow> (string, pytype) dict \<Rightarrow> unit outcome" where
  "add_fields self fields_dict = (Inr (), add_fields_loop self fields_dict)"

text \<open>
  \<open>next((field.data_type for field in self._fields if field.name == field_name), None)\<close>:
  the generator yields the declared types of the fields with that name, in schema order;
  \<open>next\<close> takes its first element, or \<open>None\<close> when there is none.
\<close>

fun next_default :: "'a list \<Rightarrow> 'a option" where
  "next_default [] = None"
| "next_default (x # xs) = Some x"

definition expected_data_type :: "field list \<Rightarrow> string \<Rightarrow> pytype option" where
  "expected_data_type fs field_name =
     next_default (map data_type (filter (\<lambda>f. name f = field_name) fs))"

text \<open>The \<open>for\<close> loop of \<open>add_row\<close> over \<open>kwargs.items()\<close>; \<open>Some\<close> is the exception raised.\<close>

fun add_row_loop :: "field list \<Rightarrow> kwargs \<Rightarrow> error option" where
  "add_row_loop fs [] = None"
| "add_row_loop fs ((field_name, field_value) # kw) =
     (case expected_data_type fs field_name of
        None \<Rightarrow> Some (ValueError (msg_unknown field_name))
      | Some ty \<Rightarrow>
          if \<not> isinstance field_value ty then Some (ValueError (msg_type field_name))
          else add_row_loop fs kw)"

text \<open>
  \<open>add_row(**keywords)\<close> on a table: argument binding, then the body, in which
  \<open>Row(**kwargs)\<close> is itself a call.
\<close>

definition add_row :: "table \<Rightarrow> keyword_args \<Rightarrow> unit outcome" where
  "add_row self kws =
     (case bind_self kws of
        Inl e \<Rightarrow> (Inl e, self)
      | Inr kw \<Rightarrow>
          if length kw \<noteq> length (table_fields self) then (Inl (ValueError msg_count), self)
          else
            (case add_row_loop (table_fields self) kw of
               Some e \<Rightarrow> (Inl e, self)
             | None \<Rightarrow>
                 (case Row kw of
                    Inl e \<Rightarrow> (Inl e, self)
                  | Inr row \<Rightarrow>
                      (Inr (), self\<lparr> table_rows := table_rows self @ [row] \<rparr>))))"

text \<open>
  \<open>find\<close>: the loop over \<open>self._rows\<close>, then the method. The condition is a function
  from rows to booleans, as its annotation \<open>Callable[[Row], bool]\<close> says: it returns
  for every row and changes nothing.
\<close>

fun find_loop :: "(row \<Rightarrow> bool) \<Rightarrow> row list \<Rightarrow> row option" where
  "find_loop condition [] = None"
| "find_loop condition (r # rs) = (if condition r then Some r else find_loop condition rs)"

definition find :: "table \<Rightarrow> (row \<Rightarrow> bool) \<Rightarrow> row option outcome" where
  "find self condition = (Inr (find_loop condition (table_rows self)), self)"

text \<open>
  \<open>findMany\<close>: the loop carries \<open>rowsFound\<close> and, beside it, the rows that \<open>condition\<close>
  has been called on so far, in call order. The second list is not a variable of the
  program; it records the calls the loop makes, so that which rows are examined can be
  stated.
\<close>

fun findMany_loop ::
  "(row \<Rightarrow> bool) \<Rightarrow> int \<Rightarrow> row list \<Rightarrow> row list \<Rightarrow> row list \<Rightarrow> row list \<times> row list" where
  "findMany_loop condition amount [] rowsFound called = (rowsFound, called)"
| "findMany_loop condition amount (r # rs) rowsFound called =
     (if condition r then
        (if int (length (rowsFound @ [r])) = amount then (rowsFound @ [r], called @ [r])
         else findMany_loop condition amount rs (rowsFound @ [r]) (called @ [r]))
      else findMany_loop condition amount rs rowsFound (called @ [r]))"

definition findMany :: "table \<Rightarrow> (row \<Rightarrow> bool) \<Rightarrow> int \<Rightarrow> row list outcome" where
  "findMany self condition amount =
     (Inr (fst (findMany_loop condition amount (table_rows self) [] [])), self)"

definition findMany_called :: "table \<Rightarrow> (row \<Rightarrow> bool) \<Rightarrow> int \<Rightarrow> row list" where
  "findMany_called self condition amount =
     snd (findMany_loop condition amount (table_rows self) [] [])"

text \<open>The read views \<open>fields\<close> and \<open>rows\<close> of a table.\<close>

definition fields_view :: "table \<Rightarrow> string list" where
  "fields_view self = map name (table_fields self)"

definition rows_view :: "table \<Rightarrow> (string, pyvalue) dict list" where
  "rows_view self = map row_fields (table_rows self)"

subsection \<open>Database\<close>

text \<open>
  Tables are objects: \<open>create\<close> allocates one and the database stores a reference to it.
  The store is the list of the table objects allocated so far, a reference is an index
  into it, and a new object takes the next index.
\<close>

type_synonym store = "table list"

record database =
  tables :: "(string, ref) dict"

definition Database :: database where
  "Database = \<lparr> tables = [] \<rparr>"

definition create :: "store \<times> database \<Rightarrow> string \<Rightarrow> ref \<times> store \<times> database" where
  "create s tname =
     (let h = fst s; self = snd s; t = length h
      in (t, h @ [Table tname], self\<lparr> tables := dict_setitem (tables self) tname t \<rparr>))"

definition get :: "database \<Rightarrow> string \<Rightarrow> error + ref" where
  "get self tname =
     (if dict_contains (tables self) tname then
        (case dict_getitem (tables self) tname of
           Some t \<Rightarrow> Inr t
         | None \<Rightarrow> Inl (KeyError tname))
      else Inl (TableNotFoundError (msg_no_table tname)))"

text \<open>A run of \<open>create\<close> calls, with the reference each one returned.\<close>

fun creates :: "store \<times> database \<Rightarrow> string list \<Rightarrow> ref list \<times> store \<times> database" where
  "creates s [] = ([], s)"
| "creates s (n # ns) =
     (let (t, s') = create s n; (ts, s'') = creates s' ns in (t # ts, s''))"

subsection \<open>The conditions of the specification on a call of add_row\<close>

text \<open>
  These two follow the words of the specification, not the code: the supplied name set
  equals the name set of the schema, and every supplied value is an instance of the
  declared type of every schema field of its name.
\<close>

definition names_match :: "table \<Rightarrow> keyword_args \<Rightarrow> bool" where
  "names_match self kw = (set (map fst kw) = set (fields_view self))"

definition types_match :: "table \<Rightarrow> keyword_args \<Rightarrow> bool" where
  "types_match self kw =
     (\<forall>(n, v) \<in> set kw. \<forall>f \<in> set (table_fields self).
        name f = n \<longrightarrow> isinstance v (data_type f))"

subsection \<open>The example of the specification\<close>

text \<open>
  A table \<open>users\<close> with the fields \<open>name: str\<close> and \<open>age: int\<close>, three rows to insert,
  and the predicate that holds of the rows whose \<open>age\<close> is the integer \<open>n\<close>.
\<close>

definition users0 :: table where
  "users0 = snd (add_fields (Table ''users'') [(''name'', TStr), (''age'', TInt)])"

definition ana :: keyword_args where
  "ana = [(''name'', VStr ''Ana''), (''age'', VInt 30)]"

definition bob :: keyword_args where
  "bob = [(''name'', VStr ''Bob''), (''age'', VInt 25)]"

definition cy :: keyword_args where
  "cy = [(''name'', VStr ''Cy''), (''age'', VInt 30)]"

definition users3 :: table where
  "users3 = snd (add_row (snd (add_row (snd (add_row users0 ana)) bob)) cy)"

definition age_is :: "int \<Rightarrow> row \<Rightarrow> bool" where
  "age_is n r = (dict_getitem (row_fields r) ''age'' = Some (VInt n))"

text \<open>
  Further inputs: a schema that declares \<open>a\<close> twice with one type, a schema that
  declares \<open>b\<close> and then \<open>a\<close> twice, first as \<open>int\<close> and then as \<open>str\<close>, calls of
  \<open>add_row\<close> with a missing, an unknown and a boolean value, a schema whose one field
  is named \<open>self\<close> with calls that supply that name, and three \<open>create\<close> calls on a new
  database.
\<close>

definition dup_table :: table where
  "dup_table = snd (add_field (snd (add_field (Table ''t'') ''a'' TInt)) ''a'' TInt)"

definition one_a :: keyword_args where
  "one_a = [(''a'', VInt 1)]"

definition shadow_table :: table where
  "shadow_table =
     snd (add_field (snd (add_field (snd (add_field (Table ''t'') ''b'' TInt)) ''a'' TInt))
            ''a'' TStr)"

definition text_a :: keyword_args where
  "text_a = [(''a'', VStr ''x''), (''b'', VInt 1), (''c'', VInt 2)]"

definition bob_only :: keyword_args where
  "bob_only = [(''name'', VStr ''Bob'')]"

definition zip_only :: keyword_args where
  "zip_only = [(''zip'', VInt 1)]"

definition ana_zip :: keyword_args where
  "ana_zip = [(''name'', VStr ''Ana''), (''zip'', VInt 1)]"

definition ana_flag :: keyword_args where
  "ana_flag = [(''name'', VStr ''Ana''), (''age'', VBool True)]"

definition self_table :: table where
  "self_table = snd (add_field (Table ''t'') ''self'' TInt)"

definition self_one :: keyword_args where
  "self_one = [(''self'', VInt 1)]"

definition self_flag :: keyword_args where
  "self_flag = [(''self'', VBool True)]"

definition three_creates :: "ref list \<times> store \<times> database" where
  "three_creates = creates ([], Database) [''users'', ''orders'', ''users'']"

section \<open>Properties\<close>

subsection \<open>find\<close>

lemma find_loop_None: "(find_loop condition rs = None) = (\<forall>r \<in> set rs. \<not> condition r)"
  by (induction rs) auto

lemma find_loop_Some:
  "(find_loop condition rs = Some r) =
     (\<exists>pre post. rs = pre @ r # post \<and> condition r \<and> (\<forall>x \<in> set pre. \<not> condition x))"
proof (induction rs)
  case Nil
  then show ?case by simp
next
  case (Cons a rs)
  show ?case
  proof (cases "condition a")
    case True
    have "(\<exists>pre post. a # rs = pre @ r # post \<and> condition r \<and> (\<forall>x \<in> set pre. \<not> condition x))
          = (a = r)"
    proof
      assume "\<exists>pre post. a # rs = pre @ r # post \<and> condition r \<and> (\<forall>x \<in> set pre. \<not> condition x)"
      then obtain pre post where h: "a # rs = pre @ r # post" "\<forall>x \<in> set pre. \<not> condition x"
        by blast
      with True show "a = r" by (cases pre) auto
    next
      assume "a = r"
      with True have "a # rs = [] @ r # rs \<and> condition r \<and> (\<forall>x \<in> set []. \<not> condition x)"
        by simp
      then show "\<exists>pre post. a # rs = pre @ r # post \<and> condition r \<and> (\<forall>x \<in> set pre. \<not> condition x)"
        by blast
    qed
    with True show ?thesis by simp
  next
    case False
    have "(\<exists>pre post. a # rs = pre @ r # post \<and> condition r \<and> (\<forall>x \<in> set pre. \<not> condition x))
          = (\<exists>pre post. rs = pre @ r # post \<and> condition r \<and> (\<forall>x \<in> set pre. \<not> condition x))"
    proof
      assume "\<exists>pre post. a # rs = pre @ r # post \<and> condition r \<and> (\<forall>x \<in> set pre. \<not> condition x)"
      then obtain pre post where
        h: "a # rs = pre @ r # post" "condition r" "\<forall>x \<in> set pre. \<not> condition x"
        by blast
      with False obtain pre' where "pre = a # pre'" by (cases pre) auto
      with h have "rs = pre' @ r # post \<and> condition r \<and> (\<forall>x \<in> set pre'. \<not> condition x)"
        by simp
      then show "\<exists>pre post. rs = pre @ r # post \<and> condition r \<and> (\<forall>x \<in> set pre. \<not> condition x)"
        by blast
    next
      assume "\<exists>pre post. rs = pre @ r # post \<and> condition r \<and> (\<forall>x \<in> set pre. \<not> condition x)"
      then obtain pre post where
        h: "rs = pre @ r # post" "condition r" "\<forall>x \<in> set pre. \<not> condition x"
        by blast
      with False
      have "a # rs = (a # pre) @ r # post \<and> condition r \<and> (\<forall>x \<in> set (a # pre). \<not> condition x)"
        by simp
      then show "\<exists>pre post. a # rs = pre @ r # post \<and> condition r \<and> (\<forall>x \<in> set pre. \<not> condition x)"
        by blast
    qed
    with False Cons show ?thesis by simp
  qed
qed

lemma users3_rows:
  "table_rows users3 = [\<lparr>row_fields = ana\<rparr>, \<lparr>row_fields = bob\<rparr>, \<lparr>row_fields = cy\<rparr>]"
  by (simp add: users3_def users0_def add_row_def add_fields_def add_field_def Table_def
      Field_def expected_data_type_def Row_def bind_self_def ana_def bob_def cy_def)

text \<open>
  C5: \<open>find\<close> never raises. It returns \<open>None\<close> exactly when no row satisfies the
  predicate, and otherwise the first row, in insertion order, that satisfies it: the row
  returned is preceded only by rows that do not satisfy the predicate.
\<close>

theorem find_first_match:
  "\<exists>res. fst (find self condition) = Inr res
     \<and> ((res = None) = (\<forall>r \<in> set (table_rows self). \<not> condition r))
     \<and> (\<forall>r. (res = Some r) =
           (\<exists>pre post. table_rows self = pre @ r # post \<and> condition r
              \<and> (\<forall>x \<in> set pre. \<not> condition x)))"
  by (simp add: find_def find_loop_None find_loop_Some)

theorem find_first_match_witness:
  "fst (find users3 (age_is 30)) = Inr (Some \<lparr>row_fields = ana\<rparr>)
   \<and> fst (find users3 (age_is 99)) = Inr None"
proof -
  from find_first_match [of users3 "age_is 30"] obtain res where
    res: "fst (find users3 (age_is 30)) = Inr res"
      "\<forall>r. (res = Some r) =
         (\<exists>pre post. table_rows users3 = pre @ r # post \<and> age_is 30 r
            \<and> (\<forall>x \<in> set pre. \<not> age_is 30 x))"
    by blast
  have "table_rows users3 = [] @ \<lparr>row_fields = ana\<rparr> # [\<lparr>row_fields = bob\<rparr>, \<lparr>row_fields = cy\<rparr>]
        \<and> age_is 30 \<lparr>row_fields = ana\<rparr> \<and> (\<forall>x \<in> set []. \<not> age_is 30 x)"
    by (simp add: users3_rows age_is_def dict_getitem_def ana_def)
  then have "\<exists>pre post. table_rows users3 = pre @ \<lparr>row_fields = ana\<rparr> # post
        \<and> age_is 30 \<lparr>row_fields = ana\<rparr> \<and> (\<forall>x \<in> set pre. \<not> age_is 30 x)"
    by blast
  with res have a: "fst (find users3 (age_is 30)) = Inr (Some \<lparr>row_fields = ana\<rparr>)"
    by simp
  from find_first_match [of users3 "age_is 99"] obtain res' where
    res': "fst (find users3 (age_is 99)) = Inr res'"
      "(res' = None) = (\<forall>r \<in> set (table_rows users3). \<not> age_is 99 r)"
    by blast
  have "\<forall>r \<in> set (table_rows users3). \<not> age_is 99 r"
    by (simp add: users3_rows age_is_def dict_getitem_def ana_def bob_def cy_def)
  with res' have "fst (find users3 (age_is 99)) = Inr None" by simp
  with a show ?thesis by simp
qed

text \<open>
  C9: \<open>find\<close> and \<open>findMany\<close> are read-only. For every predicate and every limit, the
  table after the call, with its schema and its rows, is the table before the call.
\<close>

theorem find_findMany_read_only:
  "snd (find self condition) = self \<and> snd (findMany self condition amount) = self"
  by (simp add: find_def findMany_def)

subsection \<open>findMany\<close>

lemma findMany_loop_no_exit:
  "amount \<le> int (length found) \<Longrightarrow>
     findMany_loop c amount rs found called = (found @ filter c rs, called @ rs)"
  by (induction rs arbitrary: found called) auto

lemma findMany_loop_found:
  "int (length found) < amount \<Longrightarrow>
     fst (findMany_loop c amount rs found called)
       = found @ take (nat amount - length found) (filter c rs)"
proof (induction rs arbitrary: found called)
  case Nil
  then show ?case by simp
next
  case (Cons r rs)
  show ?case
  proof (cases "c r")
    case False
    with Cons show ?thesis by simp
  next
    case True
    show ?thesis
    proof (cases "int (length (found @ [r])) = amount")
      case exit: True
      then have "nat amount - length found = Suc 0" by auto
      with True exit show ?thesis by simp
    next
      case go: False
      with Cons.prems have lt: "int (length (found @ [r])) < amount" by auto
      then have "nat amount - length found = Suc (nat amount - length (found @ [r]))"
        by auto
      with True go Cons.IH [OF lt] show ?thesis by simp
    qed
  qed
qed

lemma findMany_loop_called:
  "int (length found) < amount \<Longrightarrow>
     \<exists>j \<le> length rs.
        snd (findMany_loop c amount rs found called) = called @ take j rs
      \<and> (nat amount - length found \<le> length (filter c rs) \<longrightarrow>
           length (filter c (take j rs)) = nat amount - length found
         \<and> 0 < j \<and> c (rs ! (j - 1)))
      \<and> (length (filter c rs) < nat amount - length found \<longrightarrow> j = length rs)"
proof (induction rs arbitrary: found called)
  case Nil
  then show ?case by simp
next
  case (Cons r rs)
  let ?need = "nat amount - length found"
  from Cons.prems have need: "0 < ?need" by auto
  show ?case
  proof (cases "c r")
    case False
    from Cons.IH [OF Cons.prems, of "called @ [r]"] obtain j where
      j: "j \<le> length rs"
         "snd (findMany_loop c amount rs found (called @ [r])) = (called @ [r]) @ take j rs"
         "?need \<le> length (filter c rs) \<longrightarrow>
            length (filter c (take j rs)) = ?need \<and> 0 < j \<and> c (rs ! (j - 1))"
         "length (filter c rs) < ?need \<longrightarrow> j = length rs"
      by blast
    have "Suc j \<le> length (r # rs)" using j(1) by simp
    moreover have "snd (findMany_loop c amount (r # rs) found called) = called @ take (Suc j) (r # rs)"
      using False j(2) by simp
    moreover have "?need \<le> length (filter c (r # rs)) \<longrightarrow>
            length (filter c (take (Suc j) (r # rs))) = ?need \<and> 0 < Suc j
          \<and> c ((r # rs) ! (Suc j - 1))"
      using False j(3) by (auto simp: nth_Cons')
    moreover have "length (filter c (r # rs)) < ?need \<longrightarrow> Suc j = length (r # rs)"
      using False j(4) by simp
    ultimately show ?thesis by blast
  next
    case True
    show ?thesis
    proof (cases "int (length (found @ [r])) = amount")
      case exit: True
      then have one: "?need = Suc 0" by auto
      have "Suc 0 \<le> length (r # rs)" by simp
      moreover have "snd (findMany_loop c amount (r # rs) found called) = called @ take (Suc 0) (r # rs)"
        using True exit by simp
      moreover have "length (filter c (take (Suc 0) (r # rs))) = ?need \<and> 0 < Suc 0
          \<and> c ((r # rs) ! (Suc 0 - 1))"
        using True one by simp
      moreover have "\<not> length (filter c (r # rs)) < ?need"
        using True one by simp
      ultimately show ?thesis by blast
    next
      case go: False
      with Cons.prems have lt: "int (length (found @ [r])) < amount" by auto
      let ?need' = "nat amount - length (found @ [r])"
      have need': "?need = Suc ?need'" using lt by auto
      from Cons.IH [OF lt, of "called @ [r]"] obtain j where
        j: "j \<le> length rs"
           "snd (findMany_loop c amount rs (found @ [r]) (called @ [r])) = (called @ [r]) @ take j rs"
           "?need' \<le> length (filter c rs) \<longrightarrow>
              length (filter c (take j rs)) = ?need' \<and> 0 < j \<and> c (rs ! (j - 1))"
           "length (filter c rs) < ?need' \<longrightarrow> j = length rs"
        by blast
      have "Suc j \<le> length (r # rs)" using j(1) by simp
      moreover have "snd (findMany_loop c amount (r # rs) found called) = called @ take (Suc j) (r # rs)"
        using True go j(2) by simp
      moreover have "?need \<le> length (filter c (r # rs)) \<longrightarrow>
              length (filter c (take (Suc j) (r # rs))) = ?need \<and> 0 < Suc j
            \<and> c ((r # rs) ! (Suc j - 1))"
        using True j(3) need' by (auto simp: nth_Cons')
      moreover have "length (filter c (r # rs)) < ?need \<longrightarrow> Suc j = length (r # rs)"
        using True j(4) need' by simp
      ultimately show ?thesis by blast
    qed
  qed
qed


text \<open>
  C3: with a positive limit \<open>k\<close>, \<open>findMany\<close> returns at most \<open>k\<close> rows, namely the first
  \<open>k\<close> rows in insertion order that satisfy the predicate (all of them when fewer than \<open>k\<close>
  do). The predicate is called on a prefix of the rows only: when at least \<open>k\<close> rows
  match, the prefix holds exactly \<open>k\<close> matches and ends with one, so it stops at the
  \<open>k\<close>-th match and no later row is examined; when fewer match, it is the whole table.
\<close>

theorem findMany_positive_limit:
  assumes "0 < k"
  shows "\<exists>res. fst (findMany self condition k) = Inr res
     \<and> int (length res) \<le> k
     \<and> res = take (nat k) (filter condition (table_rows self))
     \<and> (\<exists>j \<le> length (table_rows self).
            findMany_called self condition k = take j (table_rows self)
          \<and> (nat k \<le> length (filter condition (table_rows self)) \<longrightarrow>
               length (filter condition (take j (table_rows self))) = nat k
             \<and> 0 < j \<and> condition (table_rows self ! (j - 1)))
          \<and> (length (filter condition (table_rows self)) < nat k \<longrightarrow>
               j = length (table_rows self)))"
proof -
  from assms have lt: "int (length ([] :: row list)) < k" by simp
  have res: "fst (findMany_loop condition k (table_rows self) [] [])
               = take (nat k) (filter condition (table_rows self))"
    using findMany_loop_found [OF lt, of condition "table_rows self" "[]"] by simp
  have len: "int (length (take (nat k) (filter condition (table_rows self)))) \<le> k"
    using assms by simp
  from findMany_loop_called [OF lt, of "table_rows self" condition "[]"]
  have "\<exists>j \<le> length (table_rows self).
            findMany_called self condition k = take j (table_rows self)
          \<and> (nat k \<le> length (filter condition (table_rows self)) \<longrightarrow>
               length (filter condition (take j (table_rows self))) = nat k
             \<and> 0 < j \<and> condition (table_rows self ! (j - 1)))
          \<and> (length (filter condition (table_rows self)) < nat k \<longrightarrow>
               j = length (table_rows self))"
    by (simp add: findMany_called_def)
  with res len show ?thesis by (simp add: findMany_def)
qed

theorem findMany_positive_limit_witness:
  "(0::int) < 1
   \<and> fst (findMany users3 (age_is 30) 1) = Inr [\<lparr>row_fields = ana\<rparr>]
   \<and> findMany_called users3 (age_is 30) 1 = [\<lparr>row_fields = ana\<rparr>]"
proof -
  have h: "(0::int) < 1" by simp
  have f: "filter (age_is 30) (table_rows users3) = [\<lparr>row_fields = ana\<rparr>, \<lparr>row_fields = cy\<rparr>]"
    by (simp add: users3_rows age_is_def dict_getitem_def ana_def bob_def cy_def)
  from findMany_positive_limit [OF h, of users3 "age_is 30"] obtain res j where
    r: "fst (findMany users3 (age_is 30) 1) = Inr res"
       "res = take (nat 1) (filter (age_is 30) (table_rows users3))"
       "j \<le> length (table_rows users3)"
       "findMany_called users3 (age_is 30) 1 = take j (table_rows users3)"
       "nat 1 \<le> length (filter (age_is 30) (table_rows users3)) \<longrightarrow>
          length (filter (age_is 30) (take j (table_rows users3))) = nat 1
        \<and> 0 < j \<and> age_is 30 (table_rows users3 ! (j - 1))"
    by blast
  from r(1,2) f have a: "fst (findMany users3 (age_is 30) 1) = Inr [\<lparr>row_fields = ana\<rparr>]"
    by simp
  from r(5) f have j: "length (filter (age_is 30) (take j (table_rows users3))) = 1" "0 < j"
      "age_is 30 (table_rows users3 ! (j - 1))"
    by simp_all
  have "j = 1"
  proof (rule ccontr)
    assume "j \<noteq> 1"
    with j(2) r(3) have "j = 2 \<or> j = 3" by (auto simp: users3_rows)
    with j(1,3) show False
      by (auto simp: users3_rows age_is_def dict_getitem_def ana_def bob_def cy_def
          numeral_2_eq_2 numeral_3_eq_3)
  qed
  with r(4) have "findMany_called users3 (age_is 30) 1 = [\<lparr>row_fields = ana\<rparr>]"
    by (simp add: users3_rows)
  with h a show ?thesis by simp
qed

text \<open>
  C4: with limit \<open>0\<close> or a negative limit, \<open>findMany\<close> calls the predicate on every row
  of the table and returns exactly the rows that satisfy it, in insertion order.
\<close>

theorem findMany_nonpositive_limit:
  assumes "amount \<le> 0"
  shows "fst (findMany self condition amount) = Inr (filter condition (table_rows self))
     \<and> findMany_called self condition amount = table_rows self"
proof -
  from assms have "amount \<le> int (length ([] :: row list))" by simp
  from findMany_loop_no_exit [OF this, of condition "table_rows self" "[]"]
  show ?thesis by (simp add: findMany_def findMany_called_def)
qed

theorem findMany_nonpositive_limit_witness:
  "(-2::int) \<le> 0
   \<and> fst (findMany users3 (age_is 30) (-2)) = Inr [\<lparr>row_fields = ana\<rparr>, \<lparr>row_fields = cy\<rparr>]
   \<and> findMany_called users3 (age_is 30) (-2) = table_rows users3"
proof -
  have h: "(-2::int) \<le> 0" by simp
  have f: "filter (age_is 30) (table_rows users3) = [\<lparr>row_fields = ana\<rparr>, \<lparr>row_fields = cy\<rparr>]"
    by (simp add: users3_rows age_is_def dict_getitem_def ana_def bob_def cy_def)
  from findMany_nonpositive_limit [OF h, of users3 "age_is 30"] f h show ?thesis by simp
qed

subsection \<open>add_row\<close>

lemma expected_data_type_None:
  "(expected_data_type fs n = None) = (n \<notin> set (map name fs))"
  by (induction fs) (auto simp: expected_data_type_def)

lemma expected_data_type_first:
  "\<forall>g \<in> set pre. name g \<noteq> name f \<Longrightarrow>
     expected_data_type (pre @ f # post) (name f) = Some (data_type f)"
  by (induction pre) (auto simp: expected_data_type_def)

lemma expected_data_type_distinct:
  assumes d: "distinct (map name fs)" and mem: "f \<in> set fs"
  shows "expected_data_type fs (name f) = Some (data_type f)"
proof -
  from mem obtain pre post where fs: "fs = pre @ f # post"
    by (auto simp: in_set_conv_decomp)
  have "\<forall>g \<in> set pre. name g \<noteq> name f"
  proof
    fix g assume "g \<in> set pre"
    then have "name g \<in> set (map name pre)" by simp
    moreover from d fs have "name f \<notin> set (map name pre)" by simp
    ultimately show "name g \<noteq> name f" by metis
  qed
  with fs show ?thesis by (simp add: expected_data_type_first)
qed

lemma expected_data_type_Some:
  "expected_data_type fs n = Some ty \<Longrightarrow> \<exists>f \<in> set fs. name f = n \<and> data_type f = ty"
  by (induction fs) (auto simp: expected_data_type_def split: if_splits)

lemma add_row_loop_None:
  "(add_row_loop fs kw = None) =
     (\<forall>(n, v) \<in> set kw. \<exists>ty. expected_data_type fs n = Some ty \<and> isinstance v ty)"
  by (induction fs kw rule: add_row_loop.induct) (auto split: option.splits)

lemma add_row_loop_Some:
  "add_row_loop fs kw = Some e \<Longrightarrow>
     \<exists>n \<in> set (map fst kw). e = ValueError (msg_unknown n) \<or> e = ValueError (msg_type n)"
  by (induction fs kw rule: add_row_loop.induct) (auto split: option.splits if_splits)

lemma add_row_self:
  "''self'' \<in> set (map fst kw) \<Longrightarrow> add_row self kw = (Inl (TypeError ''self''), self)"
  by (simp add: add_row_def bind_self_def)

lemma add_row_no_self:
  "''self'' \<notin> set (map fst kw) \<Longrightarrow>
     add_row self kw =
       (if length kw \<noteq> length (table_fields self) then (Inl (ValueError msg_count), self)
        else case add_row_loop (table_fields self) kw of
               Some e \<Rightarrow> (Inl e, self)
             | None \<Rightarrow>
                 (Inr (),
                  self\<lparr> table_rows := table_rows self @
                    [\<lparr> row_fields =
                        fold (\<lambda>(field_name, field_value) d.
                                dict_setitem d field_name field_value) kw [] \<rparr>] \<rparr>))"
  by (simp add: add_row_def bind_self_def Row_def split: option.splits)

lemma add_row_success:
  "(fst (add_row self kw) = Inr ()) =
     (''self'' \<notin> set (map fst kw) \<and> length kw = length (table_fields self)
      \<and> add_row_loop (table_fields self) kw = None)"
proof (cases "''self'' \<in> set (map fst kw)")
  case True
  then show ?thesis by (simp add: add_row_self)
next
  case False
  then show ?thesis by (auto simp: add_row_no_self split: option.splits)
qed

lemma add_row_raises_ValueError:
  "''self'' \<notin> set (map fst kw) \<Longrightarrow> fst (add_row self kw) \<noteq> Inr () \<Longrightarrow>
     \<exists>msg. fst (add_row self kw) = Inl (ValueError msg)"
  by (auto simp: add_row_no_self split: option.splits if_splits dest: add_row_loop_Some)

lemma add_row_names_types:
  assumes d: "distinct (map name (table_fields self))" and k: "kwargs_ok kw"
  shows "(fst (add_row self kw) = Inr ()) = (names_match self kw \<and> types_match self kw)"
proof
  let ?fs = "table_fields self"
  assume "fst (add_row self kw) = Inr ()"
  then have len: "length kw = length ?fs" and loop: "add_row_loop ?fs kw = None"
    by (simp_all add: add_row_success)
  from loop have each: "\<And>n v. (n, v) \<in> set kw \<Longrightarrow>
      \<exists>ty. expected_data_type ?fs n = Some ty \<and> isinstance v ty"
    by (auto simp: add_row_loop_None)
  have sub: "set (map fst kw) \<subseteq> set (map name ?fs)"
  proof
    fix n assume "n \<in> set (map fst kw)"
    then obtain v where "(n, v) \<in> set kw" by auto
    from each [OF this] have "expected_data_type ?fs n \<noteq> None" by auto
    then show "n \<in> set (map name ?fs)" by (simp add: expected_data_type_None)
  qed
  have "card (set (map fst kw)) = length kw"
    using k by (simp add: kwargs_ok_def distinct_card del: set_map)
  moreover have "card (set (map name ?fs)) = length ?fs"
    using d by (simp add: distinct_card del: set_map)
  ultimately have "card (set (map name ?fs)) \<le> card (set (map fst kw))"
    using len by simp
  with sub have "set (map fst kw) = set (map name ?fs)"
    by (intro card_seteq) simp_all
  then have nm: "names_match self kw" by (simp add: names_match_def fields_view_def)
  have "types_match self kw"
    unfolding types_match_def
  proof (intro ballI, clarify)
    fix n v f assume nv: "(name f, v) \<in> set kw" and f: "f \<in> set ?fs"
    from each [OF nv] obtain ty where
      ty: "expected_data_type ?fs (name f) = Some ty" "isinstance v ty" by blast
    from expected_data_type_distinct [OF d f] ty show "isinstance v (data_type f)" by simp
  qed
  with nm show "names_match self kw \<and> types_match self kw" by simp
next
  let ?fs = "table_fields self"
  assume a: "names_match self kw \<and> types_match self kw"
  then have eq: "set (map fst kw) = set (map name ?fs)"
    by (simp add: names_match_def fields_view_def)
  have "length kw = card (set (map fst kw))"
    using k by (simp add: kwargs_ok_def distinct_card del: set_map)
  also have "\<dots> = card (set (map name ?fs))" using eq by simp
  also have "\<dots> = length ?fs" using d by (simp add: distinct_card del: set_map)
  finally have len: "length kw = length ?fs" .
  have "add_row_loop ?fs kw = None"
    unfolding add_row_loop_None
  proof (intro ballI, clarify)
    fix n v assume nv: "(n, v) \<in> set kw"
    then have "n \<in> set (map fst kw)" by force
    with eq obtain f where f: "f \<in> set ?fs" "name f = n" by auto
    from a nv f have "isinstance v (data_type f)" by (auto simp: types_match_def)
    with expected_data_type_distinct [OF d f(1)] f(2)
    show "\<exists>ty. expected_data_type ?fs n = Some ty \<and> isinstance v ty" by auto
  qed
  with len k show "fst (add_row self kw) = Inr ()"
    by (simp add: add_row_success kwargs_ok_def)
qed

lemma fold_setitem_fresh:
  "distinct (map fst (d @ kw)) \<Longrightarrow>
     fold (\<lambda>(field_name, field_value) d. dict_setitem d field_name field_value) kw d = d @ kw"
proof (induction kw arbitrary: d)
  case Nil
  then show ?case by simp
next
  case (Cons p kw)
  obtain k v where p: "p = (k, v)" by (cases p)
  from Cons.prems p have "k \<notin> set (map fst d)" by auto
  then have "dict_setitem d k v = d @ [(k, v)]" by (induction d) auto
  moreover from Cons.prems p have "distinct (map fst ((d @ [(k, v)]) @ kw))" by auto
  ultimately show ?case using Cons.IH [of "d @ [(k, v)]"] p by simp
qed

lemma Row_kwargs: "kwargs_ok kw \<Longrightarrow> Row kw = Inr \<lparr>row_fields = kw\<rparr>"
  using fold_setitem_fresh [of "[]" kw] by (simp add: Row_def bind_self_def kwargs_ok_def)

lemma add_row_appends:
  assumes "kwargs_ok kw" and "fst (add_row self kw) = Inr ()"
  shows "table_rows (snd (add_row self kw)) = table_rows self @ [\<lparr>row_fields = kw\<rparr>]"
proof -
  from assms(1) have ns: "''self'' \<notin> set (map fst kw)" by (simp add: kwargs_ok_def)
  from assms(1) have "fold (\<lambda>(field_name, field_value) d.
      dict_setitem d field_name field_value) kw [] = kw"
    using fold_setitem_fresh [of "[]" kw] by (simp add: kwargs_ok_def)
  with assms(2) ns show ?thesis
    by (auto simp: add_row_no_self split: if_splits option.splits)
qed


lemma users0_fields: "table_fields users0 = [Field ''name'' TStr, Field ''age'' TInt]"
  by (simp add: users0_def add_fields_def add_field_def Table_def)

lemma users0_rows: "table_rows users0 = []"
  by (simp add: users0_def add_fields_def add_field_def Table_def)

text \<open>
  C1, as stated, fails on two kinds of input. On a schema that declares a name twice:
  the table with the fields \<open>a: int, a: int\<close> and the call \<open>add_row(a=1)\<close> have equal
  name sets and matching types, and the call raises the count error. On a call that
  supplies the name \<open>self\<close>: the table with the one field \<open>self: int\<close> and the call
  \<open>add_row(self=1)\<close> have equal name sets and matching types, and the call raises
  \<open>TypeError\<close>, which is neither success nor the schema error.
\<close>

theorem add_row_duplicate_schema_counterexample:
  "kwargs_ok one_a \<and> names_match dup_table one_a \<and> types_match dup_table one_a
   \<and> fst (add_row dup_table one_a) = Inl (ValueError msg_count)
   \<and> \<not> ((fst (add_row dup_table one_a) = Inr ())
          = (names_match dup_table one_a \<and> types_match dup_table one_a))
   \<and> distinct (fields_view self_table) \<and> keyword_args_ok self_one
   \<and> names_match self_table self_one \<and> types_match self_table self_one
   \<and> fst (add_row self_table self_one) = Inl (TypeError ''self'')"
  by (simp add: kwargs_ok_def keyword_args_ok_def names_match_def types_match_def fields_view_def
      dup_table_def one_a_def self_table_def self_one_def add_field_def Table_def Field_def
      add_row_def bind_self_def)

text \<open>
  C1, amended: for every table whose schema field names are pairwise different, and
  every set of supplied named values none of which is named \<open>self\<close>, \<open>add_row\<close> succeeds
  iff the supplied name set equals the schema's name set and every supplied value is an
  instance of the declared type of the field of its name; otherwise it raises
  \<open>ValueError\<close>.
\<close>

theorem add_row_succeeds_iff:
  assumes "distinct (fields_view self)" and "kwargs_ok kw"
  shows "((fst (add_row self kw) = Inr ()) = (names_match self kw \<and> types_match self kw))
     \<and> (\<not> (names_match self kw \<and> types_match self kw) \<longrightarrow>
          (\<exists>msg. fst (add_row self kw) = Inl (ValueError msg)))"
proof -
  from assms(2) have ns: "''self'' \<notin> set (map fst kw)" by (simp add: kwargs_ok_def)
  from assms have iff:
    "(fst (add_row self kw) = Inr ()) = (names_match self kw \<and> types_match self kw)"
    by (simp add: add_row_names_types fields_view_def)
  moreover have "\<not> (names_match self kw \<and> types_match self kw) \<longrightarrow>
          (\<exists>msg. fst (add_row self kw) = Inl (ValueError msg))"
    using iff add_row_raises_ValueError [OF ns, of self] by blast
  ultimately show ?thesis by blast
qed

theorem add_row_succeeds_iff_witness:
  "distinct (fields_view users0) \<and> kwargs_ok ana \<and> kwargs_ok bob_only
   \<and> names_match users0 ana \<and> types_match users0 ana \<and> fst (add_row users0 ana) = Inr ()
   \<and> \<not> names_match users0 bob_only
   \<and> (\<exists>msg. fst (add_row users0 bob_only) = Inl (ValueError msg))"
proof -
  have d: "distinct (fields_view users0)"
    by (simp add: fields_view_def users0_fields Field_def)
  have k: "kwargs_ok ana" "kwargs_ok bob_only"
    by (simp_all add: kwargs_ok_def ana_def bob_only_def)
  have m: "names_match users0 ana" "types_match users0 ana" "\<not> names_match users0 bob_only"
    by (auto simp: names_match_def types_match_def fields_view_def users0_fields Field_def
        ana_def bob_only_def)
  from add_row_succeeds_iff [OF d k(1)] m have "fst (add_row users0 ana) = Inr ()" by simp
  moreover from add_row_succeeds_iff [OF d k(2)] m
  have "\<exists>msg. fst (add_row users0 bob_only) = Inl (ValueError msg)" by simp
  ultimately show ?thesis using d k m by simp
qed

text \<open>
  C2: whenever \<open>add_row\<close> raises, the table after the call is the table before it, with
  the same schema and the same rows.
\<close>

theorem add_row_failure_no_effect:
  "fst (add_row self kw) = Inl e \<Longrightarrow> snd (add_row self kw) = self"
proof (cases "''self'' \<in> set (map fst kw)")
  case True
  then show ?thesis by (simp add: add_row_self)
next
  case False
  assume "fst (add_row self kw) = Inl e"
  with False show ?thesis
    by (auto simp: add_row_no_self split: if_splits option.splits)
qed

theorem add_row_failure_no_effect_witness:
  "fst (add_row users3 bob_only) = Inl (ValueError msg_count)
   \<and> snd (add_row users3 bob_only) = users3"
proof -
  have "length (table_fields users3) = 2"
    by (simp add: users3_def users0_fields add_row_def bind_self_def Row_def Field_def
        expected_data_type_def ana_def bob_def cy_def)
  then have h: "fst (add_row users3 bob_only) = Inl (ValueError msg_count)"
    by (simp add: add_row_def bind_self_def bob_only_def)
  from add_row_failure_no_effect [OF h] h show ?thesis by simp
qed

text \<open>
  C7, as stated, fails on a call that supplies the name \<open>self\<close>: on the table \<open>users\<close>
  with two fields, \<open>add_row(self=1)\<close> supplies one value, and the call raises
  \<open>TypeError\<close> when its arguments are bound, before the count is compared.
\<close>

theorem add_row_self_keyword_counterexample:
  "keyword_args_ok self_one \<and> length self_one \<noteq> length (table_fields users0)
   \<and> fst (add_row users0 self_one) = Inl (TypeError ''self'')
   \<and> fst (add_row users0 self_one) \<noteq> Inl (ValueError msg_count)"
  by (simp add: keyword_args_ok_def self_one_def users0_fields add_row_def bind_self_def)

text \<open>
  C7, amended: the count check comes before any per-name check. When no supplied name
  is \<open>self\<close> and the number of supplied values differs from the number of schema fields,
  \<open>add_row\<close> raises the count error, whatever the names are; it raises the unknown-field
  or the type error of a name only when the counts are equal.
\<close>

theorem add_row_count_checked_first:
  "(''self'' \<notin> set (map fst kw) \<and> length kw \<noteq> length (table_fields self) \<longrightarrow>
      fst (add_row self kw) = Inl (ValueError msg_count))
   \<and> (fst (add_row self kw) = Inl (ValueError (msg_unknown n))
        \<or> fst (add_row self kw) = Inl (ValueError (msg_type n)) \<longrightarrow>
      length kw = length (table_fields self))"
proof (cases "''self'' \<in> set (map fst kw)")
  case True
  then show ?thesis by (simp add: add_row_self)
next
  case False
  have "msg_count \<noteq> msg_unknown n" "msg_count \<noteq> msg_type n"
    by (simp_all add: msg_count_def msg_unknown_def msg_type_def)
  with False show ?thesis by (auto simp: add_row_no_self)
qed

theorem add_row_count_checked_first_witness:
  "''self'' \<notin> set (map fst zip_only)
   \<and> length zip_only \<noteq> length (table_fields users0)
   \<and> ''zip'' \<notin> set (fields_view users0)
   \<and> fst (add_row users0 zip_only) = Inl (ValueError msg_count)
   \<and> fst (add_row users0 ana_zip) = Inl (ValueError (msg_unknown ''zip''))
   \<and> length ana_zip = length (table_fields users0)"
proof -
  have h: "''self'' \<notin> set (map fst zip_only)"
    "length zip_only \<noteq> length (table_fields users0)"
    by (simp_all add: zip_only_def users0_fields)
  have z: "''zip'' \<notin> set (fields_view users0)"
    by (simp add: fields_view_def users0_fields Field_def)
  have u: "fst (add_row users0 ana_zip) = Inl (ValueError (msg_unknown ''zip''))"
    by (simp add: add_row_def bind_self_def ana_zip_def users0_fields Field_def
        expected_data_type_def)
  from add_row_count_checked_first [of zip_only users0 "''zip''"] h
  have "fst (add_row users0 zip_only) = Inl (ValueError msg_count)" by simp
  moreover from add_row_count_checked_first [of ana_zip users0 "''zip''"] u
  have "length ana_zip = length (table_fields users0)" by simp
  ultimately show ?thesis using h z u by simp
qed

text \<open>
  C8: the lookup of a name's declared type finds the first field added with that name,
  whatever fields follow it, so a later field of the same name is never consulted. In
  a call of \<open>add_row\<close> that does not supply the name \<open>self\<close>, a value that is not an
  instance of the first field's type is rejected with the type error even when a later
  field of that name would accept it.
\<close>

theorem first_field_shadows_later:
  assumes "\<forall>g \<in> set pre. name g \<noteq> name f"
  shows "expected_data_type (pre @ f # post) (name f) = Some (data_type f)
     \<and> (table_fields self = pre @ f # post \<and> length kw = length pre + length post
          \<and> ''self'' \<notin> set (map fst ((name f, v) # kw))
          \<and> \<not> isinstance v (data_type f) \<longrightarrow>
        fst (add_row self ((name f, v) # kw)) = Inl (ValueError (msg_type (name f))))"
proof -
  have a: "expected_data_type (pre @ f # post) (name f) = Some (data_type f)"
    using assms by (rule expected_data_type_first)
  have "fst (add_row self ((name f, v) # kw)) = Inl (ValueError (msg_type (name f)))"
    if "table_fields self = pre @ f # post" "length kw = length pre + length post"
      "''self'' \<notin> set (map fst ((name f, v) # kw))" "\<not> isinstance v (data_type f)"
    using that a by (simp add: add_row_no_self)
  with a show ?thesis by blast
qed

theorem first_field_shadows_later_witness:
  "name (Field ''b'' TInt) \<noteq> name (Field ''a'' TInt)
   \<and> table_fields shadow_table = [Field ''b'' TInt] @ Field ''a'' TInt # [Field ''a'' TStr]
   \<and> ''self'' \<notin> set (map fst text_a)
   \<and> isinstance (VStr ''x'') (data_type (Field ''a'' TStr))
   \<and> expected_data_type (table_fields shadow_table) ''a'' = Some TInt
   \<and> fst (add_row shadow_table text_a) = Inl (ValueError (msg_type ''a''))"
proof -
  have h: "\<forall>g \<in> set [Field ''b'' TInt]. name g \<noteq> name (Field ''a'' TInt)"
    by (simp add: Field_def)
  have t: "table_fields shadow_table = [Field ''b'' TInt] @ Field ''a'' TInt # [Field ''a'' TStr]"
    by (simp add: shadow_table_def add_field_def Table_def)
  have n: "''self'' \<notin> set (map fst text_a)" by (simp add: text_a_def)
  have i: "isinstance (VStr ''x'') (data_type (Field ''a'' TStr))"
    "\<not> isinstance (VStr ''x'') (data_type (Field ''a'' TInt))"
    by (simp_all add: Field_def)
  from first_field_shadows_later
    [OF h, of "[Field ''a'' TStr]" shadow_table "[(''b'', VInt 1), (''c'', VInt 2)]"
       "VStr ''x''"] t i
  have "expected_data_type (table_fields shadow_table) ''a'' = Some TInt
     \<and> fst (add_row shadow_table text_a) = Inl (ValueError (msg_type ''a''))"
    by (simp add: Field_def text_a_def)
  with h t n i show ?thesis by simp
qed

text \<open>
  C10, as stated, fails for a field named \<open>self\<close>: on the table with the one field
  \<open>self: int\<close> the call \<open>add_row(self=True)\<close> supplies a boolean for that field; it
  raises \<open>TypeError\<close> when its arguments are bound and stores no row.
\<close>

theorem add_row_bool_self_counterexample:
  "Field ''self'' TInt \<in> set (table_fields self_table) \<and> keyword_args_ok self_flag
   \<and> names_match self_table self_flag \<and> isinstance (VBool True) TInt
   \<and> fst (add_row self_table self_flag) = Inl (TypeError ''self'')
   \<and> table_rows (snd (add_row self_table self_flag)) = []"
  by (simp add: keyword_args_ok_def names_match_def fields_view_def self_table_def self_flag_def
      add_field_def Table_def Field_def add_row_def bind_self_def)

text \<open>
  C10, amended: a boolean passes the type check of a field declared \<open>int\<close>. In a call
  that does not supply the name \<open>self\<close> and whose other supplied values are valid,
  \<open>add_row\<close> succeeds, appends one row built from the supplied values, and that row
  holds the boolean itself under the field's name.
\<close>

theorem add_row_bool_for_int:
  assumes "distinct (fields_view self)" and "kwargs_ok kw" and "names_match self kw"
    and "Field n TInt \<in> set (table_fields self)" and "(n, VBool b) \<in> set kw"
    and "types_match self (filter (\<lambda>(m, v). m \<noteq> n) kw)"
  shows "isinstance (VBool b) TInt
     \<and> fst (add_row self kw) = Inr ()
     \<and> (\<exists>r. Row kw = Inr r
            \<and> table_rows (snd (add_row self kw)) = table_rows self @ [r]
            \<and> dict_getitem (row_fields r) n = Some (VBool b))"
proof -
  let ?fs = "table_fields self"
  from assms(1) have d: "distinct (map name ?fs)" by (simp add: fields_view_def)
  from assms(2) have dk: "distinct (map fst kw)" by (simp add: kwargs_ok_def)
  have tm: "types_match self kw"
    unfolding types_match_def
  proof (intro ballI, clarify)
    fix v f assume mv: "(name f, v) \<in> set kw" and f: "f \<in> set ?fs"
    show "isinstance v (data_type f)"
    proof (cases "name f = n")
      case True
      from True mv have "map_of kw n = Some v"
        using map_of_is_SomeI [OF dk, of n v] by simp
      moreover have "map_of kw n = Some (VBool b)"
        using map_of_is_SomeI [OF dk assms(5)] .
      ultimately have vb: "v = VBool b" by simp
      from d have "inj_on name (set ?fs)" by (simp add: distinct_map)
      moreover from True have "name f = name (Field n TInt)" by (simp add: Field_def)
      ultimately have "f = Field n TInt"
        using f assms(4) by (simp add: inj_on_eq_iff)
      with vb show ?thesis by (simp add: Field_def)
    next
      case False
      with mv have "(name f, v) \<in> set (filter (\<lambda>(m, v). m \<noteq> n) kw)" by simp
      with assms(6) f show ?thesis by (auto simp: types_match_def)
    qed
  qed
  with assms(3) add_row_names_types [OF d assms(2)] have ok: "fst (add_row self kw) = Inr ()"
    by simp
  have "dict_getitem (row_fields \<lparr>row_fields = kw\<rparr>) n = Some (VBool b)"
    using map_of_is_SomeI [OF dk assms(5)] by (simp add: dict_getitem_def)
  with Row_kwargs [OF assms(2)] add_row_appends [OF assms(2) ok]
  have "\<exists>r. Row kw = Inr r
            \<and> table_rows (snd (add_row self kw)) = table_rows self @ [r]
            \<and> dict_getitem (row_fields r) n = Some (VBool b)"
    by simp
  with ok show ?thesis by simp
qed

theorem add_row_bool_for_int_witness:
  "distinct (fields_view users0) \<and> kwargs_ok ana_flag \<and> names_match users0 ana_flag
   \<and> Field ''age'' TInt \<in> set (table_fields users0)
   \<and> (''age'', VBool True) \<in> set ana_flag
   \<and> types_match users0 (filter (\<lambda>(m, v). m \<noteq> ''age'') ana_flag)
   \<and> fst (add_row users0 ana_flag) = Inr ()
   \<and> table_rows (snd (add_row users0 ana_flag)) = [\<lparr>row_fields = ana_flag\<rparr>]"
proof -
  have h: "distinct (fields_view users0)" "kwargs_ok ana_flag" "names_match users0 ana_flag"
    "Field ''age'' TInt \<in> set (table_fields users0)" "(''age'', VBool True) \<in> set ana_flag"
    "types_match users0 (filter (\<lambda>(m, v). m \<noteq> ''age'') ana_flag)"
    by (auto simp: fields_view_def users0_fields Field_def kwargs_ok_def names_match_def
        types_match_def ana_flag_def)
  from add_row_bool_for_int [OF h] Row_kwargs [OF h(2)] users0_rows h show ?thesis by simp
qed

subsection \<open>Database\<close>

lemma map_of_dict_setitem: "map_of (dict_setitem d k v) = (map_of d)(k \<mapsto> v)"
  by (induction d k v rule: dict_setitem.induct) (auto simp: fun_eq_iff)

lemma dict_contains_map_of: "dict_contains d k = (map_of d k \<noteq> None)"
  by (simp add: dict_contains_def map_of_eq_None_iff)

lemma get_map_of:
  "get self n = (case map_of (tables self) n of
                   Some t \<Rightarrow> Inr t
                 | None \<Rightarrow> Inl (TableNotFoundError (msg_no_table n)))"
  by (auto simp: get_def dict_contains_map_of dict_getitem_def split: option.splits)

lemma create_eq:
  "create (h, db) n
     = (length h, h @ [Table n], db\<lparr> tables := dict_setitem (tables db) n (length h) \<rparr>)"
  by (simp add: create_def Let_def)

lemma creates_run:
  "creates (h, db) ns = (ts, h', db') \<Longrightarrow>
     ts = [length h ..< length h + length ns] \<and> h' = h @ map Table ns
   \<and> map_of (tables db') n =
       (case map_of (rev (zip ns ts)) n of Some t \<Rightarrow> Some t | None \<Rightarrow> map_of (tables db) n)"
proof (induction ns arbitrary: h db ts h' db')
  case Nil
  then show ?case by simp
next
  case (Cons a ns)
  let ?h1 = "h @ [Table a]"
  let ?db1 = "db\<lparr> tables := dict_setitem (tables db) a (length h) \<rparr>"
  obtain ts0 h0 db0 where run: "creates (?h1, ?db1) ns = (ts0, h0, db0)"
    by (cases "creates (?h1, ?db1) ns") auto
  with Cons.prems have out: "ts = length h # ts0" "h' = h0" "db' = db0"
    by (simp_all add: create_eq)
  from Cons.IH [OF run] have
    ih: "ts0 = [length ?h1 ..< length ?h1 + length ns]" "h0 = ?h1 @ map Table ns"
        "map_of (tables db0) n =
           (case map_of (rev (zip ns ts0)) n of
              Some t \<Rightarrow> Some t | None \<Rightarrow> map_of (tables ?db1) n)"
    by simp_all
  have "[length h ..< length h + Suc (length ns)]
          = length h # [Suc (length h) ..< length h + Suc (length ns)]"
    by (rule upt_conv_Cons) simp
  then have "ts = [length h ..< length h + length (a # ns)]"
    using out(1) ih(1) by (simp del: upt_Suc)
  moreover have "h' = h @ map Table (a # ns)"
    using out(2) ih(2) by simp
  moreover have "map_of (tables db') n =
       (case map_of (rev (zip (a # ns) ts)) n of
          Some t \<Rightarrow> Some t | None \<Rightarrow> map_of (tables db) n)"
    using out(1,3) ih(3)
    by (simp add: map_of_dict_setitem map_add_def split: option.splits)
  ultimately show ?case by blast
qed

text \<open>
  C6: after any run of \<open>create\<close> calls on a database, \<open>get\<close> of a name returns the
  reference that the last \<open>create\<close> of that name returned, and for a name not created in
  the run what \<open>get\<close> returned before the run. The references returned are those of the
  table objects the calls allocated, one new object per call. For a name the database
  does not hold, \<open>get\<close> raises \<open>TableNotFoundError\<close> with the message naming it; for a
  name it holds, \<open>get\<close> returns the stored reference.
\<close>

theorem get_returns_last_created:
  assumes "creates (h, db) ns = (ts, h', db')"
  shows "get db' n = (case map_of (rev (zip ns ts)) n of Some t \<Rightarrow> Inr t | None \<Rightarrow> get db n)
     \<and> dict_contains (tables db') n = (n \<in> set ns \<or> dict_contains (tables db) n)
     \<and> (\<not> dict_contains (tables db') n \<longrightarrow>
          get db' n = Inl (TableNotFoundError (msg_no_table n)))
     \<and> (dict_contains (tables db') n \<longrightarrow>
          (\<exists>t. get db' n = Inr t \<and> dict_getitem (tables db') n = Some t))
     \<and> length ts = length ns \<and> distinct ts
     \<and> (\<forall>i < length ns. ts ! i = length h + i \<and> h' ! (ts ! i) = Table (ns ! i))"
proof -
  from creates_run [OF assms] have
    run: "ts = [length h ..< length h + length ns]" "h' = h @ map Table ns"
      "map_of (tables db') n =
         (case map_of (rev (zip ns ts)) n of Some t \<Rightarrow> Some t | None \<Rightarrow> map_of (tables db) n)"
    by simp_all
  from run(1) have len: "length ts = length ns" by simp
  have a: "get db' n = (case map_of (rev (zip ns ts)) n of Some t \<Rightarrow> Inr t | None \<Rightarrow> get db n)"
    using run(3) by (simp add: get_map_of [of db'] get_map_of [of db] split: option.splits)
  have "set (map fst (zip ns ts)) = set ns"
    using len by (simp del: set_map)
  then have "(map_of (rev (zip ns ts)) n \<noteq> None) = (n \<in> set ns)"
    by (simp add: map_of_eq_None_iff)
  then have b: "dict_contains (tables db') n = (n \<in> set ns \<or> dict_contains (tables db) n)"
    using run(3) by (auto simp: dict_contains_map_of split: option.splits)
  have c: "\<not> dict_contains (tables db') n \<longrightarrow>
          get db' n = Inl (TableNotFoundError (msg_no_table n))"
    by (simp add: get_def)
  have d: "dict_contains (tables db') n \<longrightarrow>
          (\<exists>t. get db' n = Inr t \<and> dict_getitem (tables db') n = Some t)"
    by (auto simp: get_map_of dict_contains_map_of dict_getitem_def)
  have e: "distinct ts" using run(1) by simp
  have f: "\<forall>i < length ns. ts ! i = length h + i \<and> h' ! (ts ! i) = Table (ns ! i)"
    using run(1,2) by (simp add: nth_append)
  from a b c d len e f show ?thesis by blast
qed

theorem get_returns_last_created_witness:
  "three_creates = ([0, 1, 2], [Table ''users'', Table ''orders'', Table ''users''],
                    \<lparr>tables = [(''users'', 2), (''orders'', 1)]\<rparr>)
   \<and> get (snd (snd three_creates)) ''users'' = Inr 2
   \<and> get (snd (snd three_creates)) ''orders'' = Inr 1
   \<and> get (snd (snd three_creates)) ''missing''
       = Inl (TableNotFoundError (''Table '' @ quote @ ''missing'' @ quote @ '' does not exist.''))"
proof -
  have run: "creates ([], Database) [''users'', ''orders'', ''users'']
      = ([0, 1, 2], [Table ''users'', Table ''orders'', Table ''users''],
         \<lparr>tables = [(''users'', 2), (''orders'', 1)]\<rparr>)"
    by (simp add: create_def Database_def Let_def)
  have g: "get Database ''missing'' = Inl (TableNotFoundError (msg_no_table ''missing''))"
    by (simp add: get_def Database_def dict_contains_def)
  from get_returns_last_created [OF run, of "''users''"]
  have "get \<lparr>tables = [(''users'', 2), (''orders'', 1)]\<rparr> ''users'' = Inr 2" by simp
  moreover from get_returns_last_created [OF run, of "''orders''"]
  have "get \<lparr>tables = [(''users'', 2), (''orders'', 1)]\<rparr> ''orders'' = Inr 1" by simp
  moreover from get_returns_last_created [OF run, of "''missing''"] g
  have "get \<lparr>tables = [(''users'', 2), (''orders'', 1)]\<rparr> ''missing''
       = Inl (TableNotFoundError (msg_no_table ''missing''))" by simp
  ultimately show ?thesis using run by (simp add: three_creates_def msg_no_table_def)
qed

end
